theory Spec2Isabelle
  imports Main
begin

section \<open>Python values, strings and exceptions\<close>

text \<open>
  A cell of a \<^verbatim>\<open>csv.DictReader\<close> record is a \<^verbatim>\<open>str\<close>, or \<^verbatim>\<open>None\<close> when the line is shorter
  than the header. Strings are lists of 8-bit characters, read as the code points
  U+0000 to U+00FF; \<open>isspace\<close> and \<open>lower\<close> are Python's \<^verbatim>\<open>str.isspace\<close> and
  \<^verbatim>\<open>str.lower\<close> on that range (no code point above U+00FF lowers to an ASCII letter of
  \<^verbatim>\<open>true\<close> or \<^verbatim>\<open>yes\<close>).
\<close>

datatype pyval = PyNone | PyStr string

datatype error =
    KeyError string
  | AttributeError
  | ParamValidationError
  | ClientError string
  | FileNotFoundError
  | EOFError

definition and_then :: "error + 'a \<Rightarrow> ('a \<Rightarrow> error + 'b) \<Rightarrow> error + 'b" where
  "and_then r f = (case r of Inl e \<Rightarrow> Inl e | Inr x \<Rightarrow> f x)"

definition isspace :: "char \<Rightarrow> bool" where
  "isspace c = (of_char c \<in> {9, 10, 11, 12, 13, 28, 29, 30, 31, 32, 133, 160 :: nat})"

definition lower_char :: "char \<Rightarrow> char" where
  "lower_char c =
     (let n = of_char c :: nat
      in if (65 \<le> n \<and> n \<le> 90) \<or> (192 \<le> n \<and> n \<le> 222 \<and> n \<noteq> 215)
         then char_of (n + 32) else c)"

definition lower :: "string \<Rightarrow> string" where
  "lower s = map lower_char s"

definition strip :: "string \<Rightarrow> string" where
  "strip s = rev (dropWhile isspace (rev (dropWhile isspace s)))"


section \<open>Items of the store\<close>

text \<open>
  An item is a sparse mapping from attribute names to typed values, in the wire format
  of the store: \<^verbatim>\<open>{'S': ...}\<close>, \<^verbatim>\<open>{'N': ...}\<close>, \<^verbatim>\<open>{'BOOL': ...}\<close>, \<^verbatim>\<open>{'L': [...]}\<close>,
  \<^verbatim>\<open>{'M': {...}}\<close>. The primary key of a row is the pair of its \<^verbatim>\<open>conversationId\<close> and
  \<^verbatim>\<open>timestamp\<close> strings.
\<close>

datatype attr =
    S pyval
  | N pyval
  | BOOL bool
  | L "attr list"
  | M "(string \<times> attr) list"

type_synonym item = "string \<rightharpoonup> attr"
type_synonym row = "string \<rightharpoonup> pyval"
type_synonym key = "string \<times> string"

definition key_of :: "item \<Rightarrow> key option" where
  "key_of item =
     (case item ''conversationId'' of
        Some (S (PyStr c)) \<Rightarrow>
          (case item ''timestamp'' of
             Some (S (PyStr t)) \<Rightarrow> Some (c, t)
           | _ \<Rightarrow> None)
      | _ \<Rightarrow> None)"


section \<open>Row conversion (import-messages-to-dynamodb.py, lines 25 to 55)\<close>

definition getitem :: "row \<Rightarrow> string \<Rightarrow> error + pyval" where
  \<comment> \<open>\<^verbatim>\<open>row[k]\<close>\<close>
  "getitem row k = (case row k of None \<Rightarrow> Inl (KeyError k) | Some v \<Rightarrow> Inr v)"

definition str_lower :: "pyval \<Rightarrow> error + string" where
  \<comment> \<open>\<^verbatim>\<open>v.lower()\<close>\<close>
  "str_lower v = (case v of PyNone \<Rightarrow> Inl AttributeError | PyStr s \<Rightarrow> Inr (lower s))"

definition add_optional :: "row \<Rightarrow> string \<Rightarrow> (pyval \<Rightarrow> attr) \<Rightarrow> item \<Rightarrow> item" where
  \<comment> \<open>\<^verbatim>\<open>if row.get(k) and row[k].strip(): item[k] = {ty: row[k]}\<close>; \<^verbatim>\<open>None\<close> and the empty
      string are falsy\<close>
  "add_optional row k ty item =
     (case row k of
        None \<Rightarrow> item
      | Some PyNone \<Rightarrow> item
      | Some (PyStr s) \<Rightarrow> if s \<noteq> [] \<and> strip s \<noteq> [] then item(k \<mapsto> ty (PyStr s)) else item)"

definition convert_to_dynamodb_item :: "row \<Rightarrow> error + item" where
  "convert_to_dynamodb_item row =
     and_then (getitem row ''conversationId'') (\<lambda>conversationId.
     and_then (getitem row ''timestamp'') (\<lambda>timestamp.
     and_then (getitem row ''messageId'') (\<lambda>messageId.
     and_then (getitem row ''senderId'') (\<lambda>senderId.
     and_then (getitem row ''type'') (\<lambda>type.
     and_then (getitem row ''content'') (\<lambda>content.
     and_then (getitem row ''createdAt'') (\<lambda>createdAt.
     and_then (getitem row ''deleted'') (\<lambda>deleted.
     and_then (str_lower deleted) (\<lambda>lowered.
       Inr (add_optional row ''mediaUrl'' S
           (add_optional row ''fileSize'' N
           (add_optional row ''fileName'' S
           (add_optional row ''duration'' N
           (add_optional row ''replyTo'' S
             [''conversationId'' \<mapsto> S conversationId,
              ''timestamp'' \<mapsto> S timestamp,
              ''messageId'' \<mapsto> S messageId,
              ''senderId'' \<mapsto> S senderId,
              ''type'' \<mapsto> S type,
              ''content'' \<mapsto> S content,
              ''createdAt'' \<mapsto> S createdAt,
              ''deleted'' \<mapsto> BOOL (lowered = ''true''),
              ''readBy'' \<mapsto> L [],
              ''reactions'' \<mapsto> M []]))))))))))))))"


section \<open>The store\<close>

text \<open>
  Both scripts talk to one table of a remote store through a client. The store is not
  part of the repository: its state is the table and the number of requests it has
  received, and a \<open>service\<close> gives its answers. A verdict \<open>None\<close> accepts a write; the
  verdicts and the scan replies may depend on the whole state of the store, so a request
  may fail at one moment and pass at another.
\<close>

record store =
  table :: "key \<rightharpoonup> item"
  calls :: nat

record response =
  Items :: "item list option"
  LastEvaluatedKey :: "key option"

record scan_kwargs =
  FilterExpression :: string
  ExpressionAttributeValues :: "(string \<times> attr) list"
  ExclusiveStartKey :: "key option"

record service =
  put_verdict :: "store \<Rightarrow> item \<Rightarrow> error option"
  update_verdict :: "store \<Rightarrow> key \<Rightarrow> error option"
  scan_reply :: "store \<Rightarrow> scan_kwargs \<Rightarrow> error + response"

datatype update_expr = SET string string

definition attr_at :: "store \<Rightarrow> key \<Rightarrow> string \<Rightarrow> attr option" where
  \<comment> \<open>the value of an attribute of the row under a key, if the table has both\<close>
  "attr_at st k a = (case table st k of None \<Rightarrow> None | Some r \<Rightarrow> r a)"

definition put_item :: "service \<Rightarrow> item \<Rightarrow> store \<Rightarrow> (error + unit) \<times> store" where
  \<comment> \<open>Modelled from the spec: put-item, the unconditional write of a whole row under its
      primary key. The client refuses an item whose key attributes are not strings
      before any request is sent.\<close>
  "put_item svc item st =
     (case key_of item of
        None \<Rightarrow> (Inl ParamValidationError, st)
      | Some k \<Rightarrow>
          (case put_verdict svc st item of
             Some e \<Rightarrow> (Inl e, st\<lparr>calls := Suc (calls st)\<rparr>)
           | None \<Rightarrow> (Inr (), st\<lparr>table := (table st)(k \<mapsto> item), calls := Suc (calls st)\<rparr>)))"

definition update_item ::
  "service \<Rightarrow> item \<Rightarrow> update_expr \<Rightarrow> (string \<rightharpoonup> attr) \<Rightarrow> store \<Rightarrow> (error + unit) \<times> store" where
  \<comment> \<open>Modelled from the spec: update-item, a targeted partial write that sets the named
      attribute of the row addressed by the key (the row is created from the key when the
      table has none).\<close>
  "update_item svc Key expr vals st =
     (case key_of Key of
        None \<Rightarrow> (Inl ParamValidationError, st)
      | Some k \<Rightarrow>
          (case update_verdict svc st k of
             Some e \<Rightarrow> (Inl e, st\<lparr>calls := Suc (calls st)\<rparr>)
           | None \<Rightarrow>
               (case expr of SET a p \<Rightarrow>
                  (case vals p of
                     None \<Rightarrow> (Inl (ClientError ''ValidationException''), st\<lparr>calls := Suc (calls st)\<rparr>)
                   | Some v \<Rightarrow>
                       (Inr (),
                        st\<lparr>table := (table st)(k \<mapsto> (case table st k of None \<Rightarrow> Key | Some r \<Rightarrow> r)(a \<mapsto> v)),
                           calls := Suc (calls st)\<rparr>)))))"

definition scan :: "service \<Rightarrow> scan_kwargs \<Rightarrow> store \<Rightarrow> (error + response) \<times> store" where
  \<comment> \<open>Modelled from the spec: scan, one page of the table, filtered by the store, with an
      optional continuation token; it leaves the table as it is.\<close>
  "scan svc kwargs st = (scan_reply svc st kwargs, st\<lparr>calls := Suc (calls st)\<rparr>)"


section \<open>What the scripts print\<close>

datatype msg =
    Banner
  | Imported pyval nat
  | FailedImport pyval error
  | ImportSummary nat nat nat
  | AllImported
  | SomeFailed
  | FileNotFound
  | Fatal error
  | Updated pyval pyval
  | UpdateError string
  | UnexpectedError error
  | UpdateSummary nat nat nat
  | UpdatedSome nat
  | NoneFound
  | AccessError string
  | Cancelled

record proc =
  remote :: store
  out :: "msg list"


section \<open>Batch import (import-messages-to-dynamodb.py, lines 57 to 115)\<close>

record loader = proc +
  imported_count :: nat
  failed_count :: nat

definition try_import :: "service \<Rightarrow> row \<Rightarrow> loader \<Rightarrow> (error + unit) \<times> loader" where
  \<comment> \<open>the body of the inner \<^verbatim>\<open>try\<close>, lines 76 to 86\<close>
  "try_import svc row l =
     (case convert_to_dynamodb_item row of
        Inl e \<Rightarrow> (Inl e, l)
      | Inr item \<Rightarrow>
          (case put_item svc item (remote l) of
             (Inl e, st) \<Rightarrow> (Inl e, l\<lparr>remote := st\<rparr>)
           | (Inr _, st) \<Rightarrow>
               (let l' = l\<lparr>remote := st, imported_count := imported_count l + 1\<rparr>
                in case getitem row ''messageId'' of
                     Inl e \<Rightarrow> (Inl e, l')
                   | Inr m \<Rightarrow> (Inr (), l'\<lparr>out := out l' @ [Imported m (imported_count l')]\<rparr>))))"

definition import_one :: "service \<Rightarrow> row \<Rightarrow> loader \<Rightarrow> (error + unit) \<times> loader" where
  \<comment> \<open>one pass of the \<^verbatim>\<open>for\<close> loop: the \<^verbatim>\<open>try\<close> and its handler, lines 75 to 90; the handler
      itself reads \<^verbatim>\<open>row['messageId']\<close>\<close>
  "import_one svc row l =
     (case try_import svc row l of
        (Inr _, l') \<Rightarrow> (Inr (), l')
      | (Inl e, l') \<Rightarrow>
          (let l'' = l'\<lparr>failed_count := failed_count l' + 1\<rparr>
           in case getitem row ''messageId'' of
                Inl e' \<Rightarrow> (Inl e', l'')
              | Inr m \<Rightarrow> (Inr (), l''\<lparr>out := out l'' @ [FailedImport m e]\<rparr>)))"

fun import_loop :: "service \<Rightarrow> row list \<Rightarrow> loader \<Rightarrow> (error + unit) \<times> loader" where
  "import_loop svc [] l = (Inr (), l)"
| "import_loop svc (row # rows) l =
     (case import_one svc row l of
        (Inl e, l') \<Rightarrow> (Inl e, l')
      | (Inr _, l') \<Rightarrow> import_loop svc rows l')"

definition main :: "service \<Rightarrow> row list option \<Rightarrow> store \<Rightarrow> loader" where
  \<comment> \<open>the file is \<open>None\<close> when it cannot be opened\<close>
  "main svc csv st =
     (let l = \<lparr>remote = st, out = [Banner], imported_count = 0, failed_count = 0\<rparr>
      in case csv of
           None \<Rightarrow> l\<lparr>out := out l @ [FileNotFound]\<rparr>
         | Some rows \<Rightarrow>
             (case import_loop svc rows l of
                (Inl e, l') \<Rightarrow> l'\<lparr>out := out l' @ [Fatal e]\<rparr>
              | (Inr _, l') \<Rightarrow>
                  l'\<lparr>out := out l' @
                    [ImportSummary (imported_count l') (failed_count l')
                       (imported_count l' + failed_count l'),
                     if imported_count l' = 100 then AllImported else SomeFailed]\<rparr>))"


section \<open>Predicate scan and field rewrite (update-sender-id.py)\<close>

definition OLD_SENDER_ID :: string where
  "OLD_SENDER_ID = ''a1b2c3d4-e5f6-7890-abcd-ef1234567890''"

definition NEW_SENDER_ID :: string where
  "NEW_SENDER_ID = ''44e88408-8091-7022-99dc-c9b9b9d1d4af''"

text \<open>
  The places of \<^verbatim>\<open>update_sender_ids\<close> between two steps: about to scan (line 57), inside
  the \<^verbatim>\<open>for\<close> loop with the rows of the page still to visit and the continuation token of
  the response (lines 62 to 96), after the summary (line 110), and after the outer
  handler (lines 112 to 115).
\<close>

datatype pc =
    AtScan
  | InPage "item list" "key option"
  | Finished
  | Aborted error

record mutator = proc +
  updated_count :: nat
  scanned_count :: nat
  error_count :: nat
  kwargs :: scan_kwargs
  pc :: pc

definition getS :: "item \<Rightarrow> string \<Rightarrow> error + pyval" where
  \<comment> \<open>\<^verbatim>\<open>item[k]['S']\<close>\<close>
  "getS item k =
     (case item k of
        None \<Rightarrow> Inl (KeyError k)
      | Some (S v) \<Rightarrow> Inr v
      | Some _ \<Rightarrow> Inl (KeyError ''S''))"

definition message_id_of :: "item \<Rightarrow> pyval" where
  \<comment> \<open>\<^verbatim>\<open>item.get('messageId', {}).get('S', 'unknown')\<close>\<close>
  "message_id_of item = (case item ''messageId'' of Some (S v) \<Rightarrow> v | _ \<Rightarrow> PyStr ''unknown'')"

definition try_update :: "service \<Rightarrow> item \<Rightarrow> mutator \<Rightarrow> (error + unit) \<times> mutator" where
  \<comment> \<open>the body of the inner \<^verbatim>\<open>try\<close>, lines 64 to 83\<close>
  "try_update svc item m =
     (case getS item ''conversationId'' of
        Inl e \<Rightarrow> (Inl e, m)
      | Inr conversation_id \<Rightarrow>
          (case getS item ''timestamp'' of
             Inl e \<Rightarrow> (Inl e, m)
           | Inr timestamp \<Rightarrow>
               (case update_item svc
                       [''conversationId'' \<mapsto> S conversation_id, ''timestamp'' \<mapsto> S timestamp]
                       (SET ''senderId'' '':new_sender'')
                       ['':new_sender'' \<mapsto> S (PyStr NEW_SENDER_ID)]
                       (remote m) of
                  (Inl e, st) \<Rightarrow> (Inl e, m\<lparr>remote := st\<rparr>)
                | (Inr _, st) \<Rightarrow>
                    (Inr (),
                     m\<lparr>remote := st,
                       out := out m @ [Updated (message_id_of item) conversation_id],
                       updated_count := updated_count m + 1\<rparr>))))"

definition update_one :: "service \<Rightarrow> item \<Rightarrow> mutator \<Rightarrow> mutator" where
  \<comment> \<open>one pass of the \<^verbatim>\<open>for\<close> loop: the \<^verbatim>\<open>try\<close> and its two handlers, lines 63 to 90\<close>
  "update_one svc item m =
     (case try_update svc item m of
        (Inr _, m') \<Rightarrow> m'
      | (Inl e, m') \<Rightarrow>
          m'\<lparr>out := out m' @ [case e of ClientError t \<Rightarrow> UpdateError t | _ \<Rightarrow> UnexpectedError e],
             error_count := error_count m' + 1\<rparr>)"

definition step :: "service \<Rightarrow> mutator \<Rightarrow> mutator" where
  \<comment> \<open>from each place to the next: the scan and the count of its rows (lines 57 to 59),
      one pass of the \<^verbatim>\<open>for\<close> loop, the test of line 93 with the \<^verbatim>\<open>break\<close> and the summary
      or the new start key of line 96, and the outer handlers for a scan that raises\<close>
  "step svc m =
     (case pc m of
        AtScan \<Rightarrow>
          (case scan svc (kwargs m) (remote m) of
             (Inl e, st) \<Rightarrow>
               m\<lparr>remote := st,
                 out := out m @ [case e of ClientError t \<Rightarrow> AccessError t | _ \<Rightarrow> UnexpectedError e],
                 pc := Aborted e\<rparr>
           | (Inr resp, st) \<Rightarrow>
               (let items = (case Items resp of None \<Rightarrow> [] | Some xs \<Rightarrow> xs)
                in m\<lparr>remote := st,
                     scanned_count := scanned_count m + length items,
                     pc := InPage items (LastEvaluatedKey resp)\<rparr>))
      | InPage (item # rest) lek \<Rightarrow> (update_one svc item m)\<lparr>pc := InPage rest lek\<rparr>
      | InPage [] (Some k) \<Rightarrow> m\<lparr>kwargs := (kwargs m)\<lparr>ExclusiveStartKey := Some k\<rparr>, pc := AtScan\<rparr>
      | InPage [] None \<Rightarrow>
          m\<lparr>out := out m @
               [UpdateSummary (scanned_count m) (updated_count m) (error_count m),
                if updated_count m > 0 then UpdatedSome (updated_count m) else NoneFound],
            pc := Finished\<rparr>
      | Finished \<Rightarrow> m
      | Aborted e \<Rightarrow> m)"

definition start :: "store \<Rightarrow> mutator" where
  \<comment> \<open>lines 29 to 53: the counters at zero and the scan parameters without a start key\<close>
  "start st =
     \<lparr>remote = st, out = [Banner],
      updated_count = 0, scanned_count = 0, error_count = 0,
      kwargs = \<lparr>FilterExpression = ''senderId = :old_sender'',
                ExpressionAttributeValues = [('':old_sender'', S (PyStr OLD_SENDER_ID))],
                ExclusiveStartKey = None\<rparr>,
      pc = AtScan\<rparr>"

definition run :: "service \<Rightarrow> nat \<Rightarrow> mutator \<Rightarrow> mutator" where
  "run svc n m = (step svc ^^ n) m"

definition halted :: "mutator \<Rightarrow> bool" where
  "halted m = (case pc m of Finished \<Rightarrow> True | Aborted e \<Rightarrow> True | _ \<Rightarrow> False)"

definition update_sender_ids :: "service \<Rightarrow> nat \<Rightarrow> store \<Rightarrow> mutator option" where
  \<comment> \<open>the function run for at most \<open>n\<close> steps: \<open>None\<close> when it has not returned by then\<close>
  "update_sender_ids svc n st =
     (let m = run svc n (start st) in if halted m then Some m else None)"

definition confirmed :: "string \<Rightarrow> bool" where
  \<comment> \<open>line 128 and the test of line 130\<close>
  "confirmed line = (lower (strip line) = ''yes'')"

definition mutator_main ::
  "service \<Rightarrow> string option \<Rightarrow> nat \<Rightarrow> store \<Rightarrow> (error option \<times> proc) option" where
  \<comment> \<open>the script, lines 117 to 134, with \<open>n\<close> steps for \<^verbatim>\<open>update_sender_ids\<close>; the line read
      is \<open>None\<close> at the end of the input, and the error is the exception that ends the
      script\<close>
  "mutator_main svc line n st =
     (case line of
        None \<Rightarrow> Some (Some EOFError, \<lparr>remote = st, out = [Banner]\<rparr>)
      | Some text \<Rightarrow>
          if confirmed text
          then map_option (\<lambda>m. (None, \<lparr>remote = remote m, out = Banner # out m\<rparr>))
                 (update_sender_ids svc n st)
          else Some (None, \<lparr>remote = st, out = [Banner, Cancelled]\<rparr>))"


section \<open>Properties of a run of the mutator\<close>


definition tokenless_reply :: "service \<Rightarrow> mutator \<Rightarrow> bool" where
  \<comment> \<open>the scan about to be made is answered by a response with no continuation token\<close>
  "tokenless_reply svc m =
     (pc m = AtScan \<and>
      (case scan_reply svc (remote m) (kwargs m) of
         Inl e \<Rightarrow> False
       | Inr resp \<Rightarrow> LastEvaluatedKey resp = None))"

definition failed_reply :: "service \<Rightarrow> mutator \<Rightarrow> bool" where
  \<comment> \<open>the scan about to be made raises\<close>
  "failed_reply svc m = (pc m = AtScan \<and> isl (scan_reply svc (remote m) (kwargs m)))"

definition returns :: "service \<Rightarrow> store \<Rightarrow> bool" where
  "returns svc st = (\<exists>n. update_sender_ids svc n st \<noteq> None)"

definition sees_last_page :: "service \<Rightarrow> store \<Rightarrow> bool" where
  "sees_last_page svc st = (\<exists>n. tokenless_reply svc (run svc n (start st)))"

definition sees_scan_error :: "service \<Rightarrow> store \<Rightarrow> bool" where
  "sees_scan_error svc st = (\<exists>n. failed_reply svc (run svc n (start st)))"


section \<open>Sample inputs\<close>

definition example_row :: row where
  "example_row =
     [''conversationId'' \<mapsto> PyStr ''c1'', ''timestamp'' \<mapsto> PyStr ''t1'',
      ''messageId'' \<mapsto> PyStr ''m1'', ''senderId'' \<mapsto> PyStr ''s1'',
      ''type'' \<mapsto> PyStr ''text'', ''content'' \<mapsto> PyStr ''hi'',
      ''createdAt'' \<mapsto> PyStr ''2024-01-01'', ''deleted'' \<mapsto> PyStr ''false'',
      ''fileSize'' \<mapsto> PyStr '''']"

definition voice_row :: row where
  "voice_row =
     example_row(''deleted'' \<mapsto> PyStr ''TRUE'', ''duration'' \<mapsto> PyStr '' 42 '',
       ''replyTo'' \<mapsto> PyStr ''   '')"

definition flagged_row :: "string \<Rightarrow> row" where
  \<comment> \<open>the example record with another \<^verbatim>\<open>deleted\<close> field\<close>
  "flagged_row d = example_row(''deleted'' \<mapsto> PyStr d)"

definition anonymous_row :: "string \<Rightarrow> row" where
  \<comment> \<open>a record of a file whose header has no \<^verbatim>\<open>messageId\<close> column\<close>
  "anonymous_row t =
     [''conversationId'' \<mapsto> PyStr ''c1'', ''timestamp'' \<mapsto> PyStr t,
      ''senderId'' \<mapsto> PyStr ''s1'', ''type'' \<mapsto> PyStr ''text'',
      ''content'' \<mapsto> PyStr ''hi'', ''createdAt'' \<mapsto> PyStr ''2024-01-01'',
      ''deleted'' \<mapsto> PyStr ''false'']"

definition revised_row :: row where
  \<comment> \<open>a second record under the key of \<open>example_row\<close>, with another content\<close>
  "revised_row = example_row(''content'' \<mapsto> PyStr ''bye'')"

definition stored_item :: item where
  "stored_item =
     [''conversationId'' \<mapsto> S (PyStr ''c1''), ''timestamp'' \<mapsto> S (PyStr ''t1''),
      ''messageId'' \<mapsto> S (PyStr ''m1''), ''senderId'' \<mapsto> S (PyStr OLD_SENDER_ID),
      ''content'' \<mapsto> S (PyStr ''hi'')]"

definition empty_store :: store where
  "empty_store = \<lparr>table = Map.empty, calls = 0\<rparr>"

definition one_row_store :: store where
  "one_row_store = \<lparr>table = [(''c1'', ''t1'') \<mapsto> stored_item], calls = 0\<rparr>"

definition steady :: service where
  \<comment> \<open>accepts every write; every scan is an empty last page\<close>
  "steady =
     \<lparr>put_verdict = (\<lambda>st item. None),
      update_verdict = (\<lambda>st k. None),
      scan_reply = (\<lambda>st kw. Inr \<lparr>Items = Some [], LastEvaluatedKey = None\<rparr>)\<rparr>"

definition flaky :: service where
  \<comment> \<open>throttles the first request it receives; every scan raises\<close>
  "flaky =
     \<lparr>put_verdict = (\<lambda>st item. if calls st = 0 then Some (ClientError ''Throttled'') else None),
      update_verdict = (\<lambda>st k. None),
      scan_reply = (\<lambda>st kw. Inl (ClientError ''AccessDenied''))\<rparr>"

definition hiccup :: service where
  \<comment> \<open>throttles the fourth request it receives\<close>
  "hiccup =
     \<lparr>put_verdict = (\<lambda>st item. if calls st = 3 then Some (ClientError ''Throttled'') else None),
      update_verdict = (\<lambda>st k. None),
      scan_reply = (\<lambda>st kw. Inr \<lparr>Items = Some [], LastEvaluatedKey = None\<rparr>)\<rparr>"

definition paged :: service where
  \<comment> \<open>a first page with no match and a continuation token, then the row of the table\<close>
  "paged =
     \<lparr>put_verdict = (\<lambda>st item. None),
      update_verdict = (\<lambda>st k. None),
      scan_reply = (\<lambda>st kw.
        case ExclusiveStartKey kw of
          None \<Rightarrow> Inr \<lparr>Items = Some [], LastEvaluatedKey = Some (''c0'', ''t0'')\<rparr>
        | Some k \<Rightarrow>
            Inr \<lparr>Items = Some (case table st (''c1'', ''t1'') of None \<Rightarrow> [] | Some r \<Rightarrow> [r]),
                 LastEvaluatedKey = None\<rparr>)\<rparr>"

definition endless :: service where
  \<comment> \<open>every scan is an empty page with a continuation token\<close>
  "endless =
     \<lparr>put_verdict = (\<lambda>st item. None),
      update_verdict = (\<lambda>st k. None),
      scan_reply = (\<lambda>st kw. Inr \<lparr>Items = Some [], LastEvaluatedKey = Some (''c0'', ''t0'')\<rparr>)\<rparr>"



section \<open>Row conversion\<close>

lemma lower_TRUE: "lower ''TRUE'' = ''true''"
  by code_simp

lemma strip_blank: "strip '''' = [] \<and> strip ''   '' = []"
  by (simp add: strip_def isspace_def)

lemma strip_42: "strip '' 42 '' = ''42''"
  by (simp add: strip_def isspace_def)

lemma convert_Inr:
  assumes "convert_to_dynamodb_item row = Inr item"
  obtains c t m s ty co cr d where
    "row ''conversationId'' = Some c" "row ''timestamp'' = Some t"
    "row ''messageId'' = Some m" "row ''senderId'' = Some s"
    "row ''type'' = Some ty" "row ''content'' = Some co"
    "row ''createdAt'' = Some cr" "row ''deleted'' = Some (PyStr d)"
    "item = add_optional row ''mediaUrl'' S
           (add_optional row ''fileSize'' N
           (add_optional row ''fileName'' S
           (add_optional row ''duration'' N
           (add_optional row ''replyTo'' S
             [''conversationId'' \<mapsto> S c,
              ''timestamp'' \<mapsto> S t,
              ''messageId'' \<mapsto> S m,
              ''senderId'' \<mapsto> S s,
              ''type'' \<mapsto> S ty,
              ''content'' \<mapsto> S co,
              ''createdAt'' \<mapsto> S cr,
              ''deleted'' \<mapsto> BOOL (lower d = ''true''),
              ''readBy'' \<mapsto> L [],
              ''reactions'' \<mapsto> M []]))))"
  using assms
  unfolding convert_to_dynamodb_item_def and_then_def getitem_def str_lower_def
  by (auto split: option.splits sum.splits pyval.splits)

lemma convert_total:
  assumes "row ''conversationId'' = Some c" "row ''timestamp'' = Some t"
    "row ''messageId'' = Some m" "row ''senderId'' = Some s"
    "row ''type'' = Some ty" "row ''content'' = Some co"
    "row ''createdAt'' = Some cr" "row ''deleted'' = Some (PyStr d)"
  shows "\<exists>item. convert_to_dynamodb_item row = Inr item"
  using assms
  unfolding convert_to_dynamodb_item_def and_then_def getitem_def str_lower_def
  by simp

lemma convert_needs_messageId:
  "row ''messageId'' = None \<Longrightarrow> \<exists>e. convert_to_dynamodb_item row = Inl e"
  by (cases "convert_to_dynamodb_item row") (auto elim: convert_Inr)

lemma add_optional_other: "k \<noteq> f \<Longrightarrow> add_optional row f ty item k = item k"
  by (simp add: add_optional_def split: option.splits pyval.splits)




lemma converted_deleted_flag:
  assumes "convert_to_dynamodb_item row = Inr item"
  shows "\<exists>d. row ''deleted'' = Some (PyStr d)
           \<and> item ''deleted'' = Some (BOOL (lower d = ''true''))"
proof -
  from assms obtain d where "row ''deleted'' = Some (PyStr d)"
    and "item ''deleted'' = Some (BOOL (lower d = ''true''))"
    by (rule convert_Inr) (simp add: add_optional_other)
  then show ?thesis by simp
qed

lemma flagged_fields:
  "flagged_row d ''conversationId'' = Some (PyStr ''c1'')"
  "flagged_row d ''timestamp'' = Some (PyStr ''t1'')"
  "flagged_row d ''messageId'' = Some (PyStr ''m1'')"
  "flagged_row d ''senderId'' = Some (PyStr ''s1'')"
  "flagged_row d ''type'' = Some (PyStr ''text'')"
  "flagged_row d ''content'' = Some (PyStr ''hi'')"
  "flagged_row d ''createdAt'' = Some (PyStr ''2024-01-01'')"
  "flagged_row d ''deleted'' = Some (PyStr d)"
  by (simp_all add: flagged_row_def example_row_def)

text \<open>
  C4. A record that has the eight required fields, with a string \<open>d\<close> in its \<^verbatim>\<open>deleted\<close>
  field, is converted to an item, and the item's \<^verbatim>\<open>deleted\<close> attribute is the boolean that
  is true exactly when \<open>d\<close>, lowercased, is \<^verbatim>\<open>true\<close>: every other value, the empty string,
  \<^verbatim>\<open>False\<close>, \<^verbatim>\<open>1\<close> and \<^verbatim>\<open>yes\<close> among them, gives false.
\<close>

theorem deleted_is_lowercase_true:
  assumes "row ''conversationId'' = Some c" and "row ''timestamp'' = Some t"
    and "row ''messageId'' = Some m" and "row ''senderId'' = Some s"
    and "row ''type'' = Some ty" and "row ''content'' = Some co"
    and "row ''createdAt'' = Some cr" and "row ''deleted'' = Some (PyStr d)"
  shows "\<exists>item. convert_to_dynamodb_item row = Inr item
           \<and> item ''deleted'' = Some (BOOL (lower d = ''true''))"
proof -
  from convert_total[OF assms] obtain item where
    c: "convert_to_dynamodb_item row = Inr item" ..
  from converted_deleted_flag[OF c] assms(8)
  have "item ''deleted'' = Some (BOOL (lower d = ''true''))" by simp
  with c show ?thesis by blast
qed

theorem deleted_is_lowercase_true_witness:
  "(\<exists>item. convert_to_dynamodb_item (flagged_row '''') = Inr item
      \<and> item ''deleted'' = Some (BOOL False))
   \<and> (\<exists>item. convert_to_dynamodb_item (flagged_row ''False'') = Inr item
      \<and> item ''deleted'' = Some (BOOL False))
   \<and> (\<exists>item. convert_to_dynamodb_item (flagged_row ''1'') = Inr item
      \<and> item ''deleted'' = Some (BOOL False))
   \<and> (\<exists>item. convert_to_dynamodb_item (flagged_row ''yes'') = Inr item
      \<and> item ''deleted'' = Some (BOOL False))
   \<and> (\<exists>item. convert_to_dynamodb_item (flagged_row ''false'') = Inr item
      \<and> item ''deleted'' = Some (BOOL False))
   \<and> (\<exists>item. convert_to_dynamodb_item (flagged_row ''blue'') = Inr item
      \<and> item ''deleted'' = Some (BOOL False))
   \<and> (\<exists>item. convert_to_dynamodb_item (flagged_row ''TRUE'') = Inr item
      \<and> item ''deleted'' = Some (BOOL True))"
proof -
  have short: "lower '''' \<noteq> ''true''" "lower ''False'' \<noteq> ''true''"
    "lower ''1'' \<noteq> ''true''" "lower ''yes'' \<noteq> ''true''" "lower ''false'' \<noteq> ''true''"
    by (simp_all add: lower_def)
  have blue: "lower ''blue'' \<noteq> ''true''"
    by (simp add: lower_def lower_char_def)
  show ?thesis
    using deleted_is_lowercase_true[OF flagged_fields[of "''''"]]
      deleted_is_lowercase_true[OF flagged_fields[of "''False''"]]
      deleted_is_lowercase_true[OF flagged_fields[of "''1''"]]
      deleted_is_lowercase_true[OF flagged_fields[of "''yes''"]]
      deleted_is_lowercase_true[OF flagged_fields[of "''false''"]]
      deleted_is_lowercase_true[OF flagged_fields[of "''blue''"]]
      deleted_is_lowercase_true[OF flagged_fields[of "''TRUE''"]]
    by (simp add: short blue lower_TRUE)
qed








section \<open>Batch import\<close>

lemma import_one_continues:
  assumes "row ''messageId'' = Some mid"
  shows "fst (import_one svc row l) = Inr ()
     \<and> imported_count (snd (import_one svc row l)) + failed_count (snd (import_one svc row l))
         = Suc (imported_count l + failed_count l)"
  using assms
  by (auto simp add: import_one_def try_import_def getitem_def Let_def
      split: sum.splits prod.splits)

lemma import_loop_completes:
  assumes "\<forall>row \<in> set rows. row ''messageId'' \<noteq> None"
  shows "fst (import_loop svc rows l) = Inr ()
     \<and> imported_count (snd (import_loop svc rows l)) + failed_count (snd (import_loop svc rows l))
         = imported_count l + failed_count l + length rows"
  using assms
proof (induction rows arbitrary: l)
  case Nil
  show ?case by simp
next
  case (Cons row rows)
  then obtain mid where mid: "row ''messageId'' = Some mid" by auto
  from import_one_continues[where row = row and mid = mid and svc = svc and l = l] mid
  obtain l' where one: "import_one svc row l = (Inr (), l')"
    and count: "imported_count l' + failed_count l' = Suc (imported_count l + failed_count l)"
    by (cases "import_one svc row l") auto
  from Cons.prems have "\<forall>row \<in> set rows. row ''messageId'' \<noteq> None" by simp
  from Cons.IH[OF this, of l'] one count show ?case by simp
qed

text \<open>
  C1. The statement is that no failure of a single record aborts the batch. On a file whose
  header has no \<^verbatim>\<open>messageId\<close> column the conversion of the first record raises
  \<^verbatim>\<open>KeyError\<close>, the handler counts the failure and then raises \<^verbatim>\<open>KeyError\<close> itself while
  formatting its message, and the batch ends there: the second record is never visited
  (one failure counted, not two), the store receives no request, and no summary is
  printed.
\<close>

theorem import_aborts_without_messageId:
  "main svc (Some [anonymous_row ''t1'', anonymous_row ''t2'']) st =
     \<lparr>remote = st, out = [Banner, Fatal (KeyError ''messageId'')],
      imported_count = 0, failed_count = 1\<rparr>"
  by (simp add: main_def import_one_def try_import_def convert_to_dynamodb_item_def
      and_then_def getitem_def anonymous_row_def)

lemma import_one_table:
  assumes H: "\<forall>s s' it. put_verdict svc s it = put_verdict svc s' it"
  shows "\<exists>w ab. \<forall>l. table (remote (snd (import_one svc row l))) = table (remote l) ++ w
               \<and> isl (fst (import_one svc row l)) = ab"
proof (cases "convert_to_dynamodb_item row")
  case (Inl e)
  then show ?thesis
    by (intro exI[of _ Map.empty] exI[of _ "row ''messageId'' = None"])
       (auto simp add: import_one_def try_import_def getitem_def split: option.splits)
next
  case (Inr item)
  show ?thesis
  proof (cases "key_of item")
    case None
    with Inr show ?thesis
      by (intro exI[of _ Map.empty] exI[of _ "row ''messageId'' = None"])
         (auto simp add: import_one_def try_import_def getitem_def put_item_def
          split: option.splits)
  next
    case (Some k)
    show ?thesis
    proof (cases "put_verdict svc empty_store item")
      case None
      with H have "\<And>s. put_verdict svc s item = None" by metis
      with Inr Some show ?thesis
        by (intro exI[of _ "[k \<mapsto> item]"] exI[of _ "row ''messageId'' = None"])
           (auto simp add: import_one_def try_import_def getitem_def put_item_def
            split: option.splits)
    next
      case (Some e)
      with H have "\<And>s. put_verdict svc s item = Some e" by metis
      with Inr \<open>key_of item = Some k\<close> show ?thesis
        by (intro exI[of _ Map.empty] exI[of _ "row ''messageId'' = None"])
           (auto simp add: import_one_def try_import_def getitem_def put_item_def
            split: option.splits)
    qed
  qed
qed

lemma import_loop_table:
  assumes H: "\<forall>s s' it. put_verdict svc s it = put_verdict svc s' it"
  shows "\<exists>w. \<forall>l. table (remote (snd (import_loop svc rows l))) = table (remote l) ++ w"
proof (induction rows)
  case Nil
  show ?case by (intro exI[of _ Map.empty]) simp
next
  case (Cons row rows)
  from import_one_table[OF H, of row] obtain w1 ab where
    one: "\<And>l. table (remote (snd (import_one svc row l))) = table (remote l) ++ w1"
         "\<And>l. isl (fst (import_one svc row l)) = ab" by blast
  from Cons obtain w2 where
    rest: "\<And>l. table (remote (snd (import_loop svc rows l))) = table (remote l) ++ w2" by blast
  show ?case
  proof (cases ab)
    case True
    have "\<And>l. table (remote (snd (import_loop svc (row # rows) l))) = table (remote l) ++ w1"
    proof -
      fix l
      from one(2)[of l] True obtain e l' where "import_one svc row l = (Inl e, l')"
        by (cases "import_one svc row l") (auto simp add: isl_def)
      with one(1)[of l]
      show "table (remote (snd (import_loop svc (row # rows) l))) = table (remote l) ++ w1"
        by simp
    qed
    then show ?thesis by blast
  next
    case False
    have "\<And>l. table (remote (snd (import_loop svc (row # rows) l))) = table (remote l) ++ (w1 ++ w2)"
    proof -
      fix l
      obtain a l' where al: "import_one svc row l = (a, l')"
        by (cases "import_one svc row l")
      with one(2)[of l] False have "\<not> isl a" by simp
      then obtain u where "a = Inr u" by (cases a) simp_all
      with al have "import_one svc row l = (Inr u, l')" by simp
      with one(1)[of l] rest[of l']
      show "table (remote (snd (import_loop svc (row # rows) l))) = table (remote l) ++ (w1 ++ w2)"
        by simp
    qed
    then show ?thesis by blast
  qed
qed

lemma main_table:
  assumes H: "\<forall>s s' it. put_verdict svc s it = put_verdict svc s' it"
  shows "\<exists>w. \<forall>st. table (remote (main svc csv st)) = table st ++ w"
proof (cases csv)
  case None
  then show ?thesis by (intro exI[of _ Map.empty]) (simp add: main_def)
next
  case (Some rows)
  from import_loop_table[OF H, of rows] obtain w where
    w: "\<And>l. table (remote (snd (import_loop svc rows l))) = table (remote l) ++ w" by blast
  have "\<And>st. table (remote (main svc csv st)) = table st ++ w"
  proof -
    fix st
    show "table (remote (main svc csv st)) = table st ++ w"
      using w[of "\<lparr>remote = st, out = [Banner], imported_count = 0, failed_count = 0\<rparr>"] Some
      by (auto simp add: main_def split: prod.splits sum.splits)
  qed
  then show ?thesis by blast
qed

lemmas loader_eval =
  main_def import_one_def try_import_def convert_to_dynamodb_item_def and_then_def
  getitem_def str_lower_def put_item_def key_of_def add_optional_def example_row_def

lemma rerun_completes_a_throttled_write:
  "table (remote (main flaky (Some [example_row]) empty_store)) (''c1'', ''t1'') = None
   \<and> table (remote (main flaky (Some [example_row])
         (remote (main flaky (Some [example_row]) empty_store)))) (''c1'', ''t1'') \<noteq> None"
  by (simp add: loader_eval flaky_def empty_store_def)

text \<open>
  C8, as stated: after two runs on the same file every row has the attribute values it
  has after one run. It fails when the store answers a write differently at different
  moments. The file holds two records under one key, with the contents \<^verbatim>\<open>hi\<close> and then
  \<^verbatim>\<open>bye\<close>, and the store throttles the fourth request it receives: the first run leaves
  the row with \<^verbatim>\<open>bye\<close>, and the second run, whose last write is refused and not retried,
  leaves it with \<^verbatim>\<open>hi\<close>.
\<close>

theorem rerun_differs_on_throttling:
  "attr_at (remote (main hiccup (Some [example_row, revised_row]) empty_store))
       (''c1'', ''t1'') ''content'' = Some (S (PyStr ''bye''))
   \<and> attr_at (remote (main hiccup (Some [example_row, revised_row])
         (remote (main hiccup (Some [example_row, revised_row]) empty_store))))
       (''c1'', ''t1'') ''content'' = Some (S (PyStr ''hi''))"
  by (simp add: attr_at_def loader_eval revised_row_def hiccup_def empty_store_def)

text \<open>
  C8, amended. When the verdict of the store on a write depends only on the item written
  (in particular when every write is accepted), a second run of the loader on the same
  file, with nothing else writing in between, leaves the table exactly as the first run
  left it: each accepted write is a put of the converted record under its key
  (\<^verbatim>\<open>conversationId\<close>, \<^verbatim>\<open>timestamp\<close>), whatever the table held there.
\<close>

theorem rerun_same_table:
  assumes H: "\<forall>s s' it. put_verdict svc s it = put_verdict svc s' it"
  shows "table (remote (main svc csv (remote (main svc csv st)))) = table (remote (main svc csv st))"
proof -
  from main_table[OF H, of csv] obtain w where
    w: "\<And>st. table (remote (main svc csv st)) = table st ++ w" by blast
  have "(table st ++ w) ++ w = table st ++ w"
    by (rule ext) (simp add: map_add_def split: option.splits)
  then show ?thesis by (simp add: w)
qed

theorem rerun_same_table_witness:
  "table (remote (main steady (Some [example_row, voice_row])
       (remote (main steady (Some [example_row, voice_row]) empty_store))))
     = table (remote (main steady (Some [example_row, voice_row]) empty_store))
   \<and> table (remote (main steady (Some [example_row, voice_row]) empty_store)) (''c1'', ''t1'') \<noteq> None"
proof -
  have "\<forall>s s' it. put_verdict steady s it = put_verdict steady s' it"
    by (simp add: steady_def)
  from rerun_same_table[OF this, of "Some [example_row, voice_row]" empty_store]
  show ?thesis
    by (simp add: loader_eval voice_row_def steady_def empty_store_def lower_TRUE strip_42 strip_blank)
qed


section \<open>The mutator: steps and runs\<close>

lemma run_0: "run svc 0 m = m"
  by (simp add: run_def)

lemma run_Suc: "run svc (Suc n) m = step svc (run svc n m)"
  by (simp add: run_def)

lemma run_first: "run svc (Suc n) m = run svc n (step svc m)"
  by (simp add: run_def funpow_swap1)

lemma run_add: "run svc (n + k) m = run svc k (run svc n m)"
  by (simp add: run_def funpow_add add.commute)

lemma step_halted: "halted m \<Longrightarrow> step svc m = m"
  by (auto simp add: halted_def step_def split: pc.splits)





lemma step_row:
  "pc m = InPage (item # rest) lek \<Longrightarrow> step svc m = (update_one svc item m)\<lparr>pc := InPage rest lek\<rparr>"
  by (simp add: step_def)



lemma page_drained:
  "pc m = InPage items lek \<Longrightarrow> pc (run svc (length items) m) = InPage [] lek"
proof (induction items arbitrary: m)
  case Nil
  then show ?case by (simp add: run_0)
next
  case (Cons item rest)
  have "pc (step svc m) = InPage rest lek"
    using Cons.prems by (simp add: step_row)
  from Cons.IH[OF this] show ?case by (simp add: run_first)
qed

lemma last_page_returns:
  assumes "tokenless_reply svc m"
  shows "\<exists>k. halted (run svc k m)"
proof -
  from assms obtain resp where at: "pc m = AtScan"
    and reply: "scan_reply svc (remote m) (kwargs m) = Inr resp"
    and none: "LastEvaluatedKey resp = None"
    by (auto simp add: tokenless_reply_def split: sum.splits)
  obtain items where "pc (step svc m) = InPage items None"
    using at reply none by (simp add: step_def scan_def Let_def)
  then have "pc (run svc (length items) (step svc m)) = InPage [] None"
    by (rule page_drained)
  then have "halted (step svc (run svc (length items) (step svc m)))"
    by (simp add: step_def halted_def)
  moreover have "run svc (Suc (Suc (length items))) m
      = step svc (run svc (length items) (step svc m))"
    using run_Suc[of svc "Suc (length items)" m] run_first[of svc "length items" m] by simp
  ultimately have "halted (run svc (Suc (Suc (length items))) m)"
    by simp
  then show ?thesis ..
qed

lemma scan_error_returns:
  assumes "failed_reply svc m"
  shows "halted (run svc 1 m)"
  using assms
  by (auto simp add: failed_reply_def run_def step_def scan_def halted_def isl_def
      split: sum.splits)

lemma how_it_halts:
  "(case pc (run svc n (start st)) of
      AtScan \<Rightarrow> True
    | InPage items lek \<Rightarrow> lek = None \<longrightarrow> sees_last_page svc st
    | Finished \<Rightarrow> sees_last_page svc st
    | Aborted e \<Rightarrow> sees_scan_error svc st)"
proof (induction n)
  case 0
  show ?case by (simp add: run_0 start_def)
next
  case (Suc n)
  let ?m = "run svc n (start st)"
  show ?case
  proof (cases "pc ?m")
    case AtScan
    show ?thesis
    proof (cases "scan_reply svc (remote ?m) (kwargs ?m)")
      case (Inl e)
      with AtScan have "failed_reply svc ?m" by (simp add: failed_reply_def)
      then have "sees_scan_error svc st" unfolding sees_scan_error_def by blast
      with AtScan Inl show ?thesis by (simp add: run_Suc step_def scan_def)
    next
      case (Inr resp)
      show ?thesis
      proof (cases "LastEvaluatedKey resp")
        case None
        with AtScan Inr have "tokenless_reply svc ?m" by (simp add: tokenless_reply_def)
        then have "sees_last_page svc st" unfolding sees_last_page_def by blast
        with AtScan Inr show ?thesis by (simp add: run_Suc step_def scan_def Let_def)
      next
        case (Some k)
        with AtScan Inr show ?thesis by (simp add: run_Suc step_def scan_def Let_def)
      qed
    qed
  next
    case (InPage items lek)
    with Suc show ?thesis
      by (cases items; cases lek) (simp_all add: run_Suc step_def)
  next
    case Finished
    with Suc show ?thesis by (simp add: run_Suc step_def)
  next
    case (Aborted e)
    with Suc show ?thesis by (simp add: run_Suc step_def)
  qed
qed

lemma empty_page_goes_on:
  assumes "pc m = AtScan" and "scan_reply svc (remote m) (kwargs m) = Inr resp"
    and "Items resp = Some [] \<or> Items resp = None" and "LastEvaluatedKey resp = Some k"
  shows "pc (run svc 2 m) = AtScan \<and> ExclusiveStartKey (kwargs (run svc 2 m)) = Some k"
  using assms
  by (auto simp add: run_def numeral_2_eq_2 step_def scan_def)

lemmas mutator_eval =
  run_0 run_first step_def scan_def start_def update_one_def try_update_def update_item_def
  getS_def key_of_def message_id_of_def halted_def update_sender_ids_def
  stored_item_def one_row_store_def empty_store_def


section \<open>Pagination and counters\<close>

text \<open>
  C3, as stated: the scan loop returns if and only if the store eventually
  answers a scan with a response that has no continuation token. It fails on a store
  whose scan raises: the outer handler ends the function at once, and no response without
  a token was ever received.
\<close>

theorem returns_on_scan_error:
  "returns flaky empty_store \<and> \<not> sees_last_page flaky empty_store"
proof -
  have "update_sender_ids flaky 1 empty_store \<noteq> None"
    by (simp add: mutator_eval flaky_def)
  then have "returns flaky empty_store" unfolding returns_def by blast
  moreover have "\<not> sees_last_page flaky empty_store"
    by (simp add: sees_last_page_def tokenless_reply_def flaky_def)
  ultimately show ?thesis by simp
qed

text \<open>
  C3, amended. The scan loop returns if and only if the store eventually answers a scan
  with a response that has no continuation token, or a scan raises. A response with no
  rows and a continuation token does not end the loop: the next scan is made, from that
  token.
\<close>

theorem scan_loop_returns_iff:
  "(returns svc st \<longleftrightarrow> sees_last_page svc st \<or> sees_scan_error svc st)
   \<and> (pc m = AtScan \<and> scan_reply svc (remote m) (kwargs m) = Inr resp
        \<and> Items resp = Some [] \<and> LastEvaluatedKey resp = Some k
      \<longrightarrow> pc (run svc 2 m) = AtScan \<and> \<not> halted (run svc 2 m)
          \<and> ExclusiveStartKey (kwargs (run svc 2 m)) = Some k)"
proof -
  have "returns svc st \<longleftrightarrow> sees_last_page svc st \<or> sees_scan_error svc st"
  proof
    assume "returns svc st"
    then obtain n where "halted (run svc n (start st))"
      by (auto simp add: returns_def update_sender_ids_def Let_def split: if_splits)
    with how_it_halts[where svc = svc and n = n and st = st]
    show "sees_last_page svc st \<or> sees_scan_error svc st"
      by (auto simp add: halted_def split: pc.splits)
  next
    assume "sees_last_page svc st \<or> sees_scan_error svc st"
    then obtain n where
      "tokenless_reply svc (run svc n (start st)) \<or> failed_reply svc (run svc n (start st))"
      by (auto simp add: sees_last_page_def sees_scan_error_def)
    then obtain k where "halted (run svc k (run svc n (start st)))"
      using last_page_returns scan_error_returns by blast
    then have "halted (run svc (n + k) (start st))" by (simp add: run_add)
    then have "update_sender_ids svc (n + k) st \<noteq> None"
      by (simp add: update_sender_ids_def)
    then show "returns svc st" unfolding returns_def by blast
  qed
  moreover have "pc m = AtScan \<and> scan_reply svc (remote m) (kwargs m) = Inr resp
        \<and> Items resp = Some [] \<and> LastEvaluatedKey resp = Some k
      \<longrightarrow> pc (run svc 2 m) = AtScan \<and> \<not> halted (run svc 2 m)
          \<and> ExclusiveStartKey (kwargs (run svc 2 m)) = Some k"
    using empty_page_goes_on[of m svc resp k] by (simp add: halted_def)
  ultimately show ?thesis by blast
qed

theorem scan_loop_returns_iff_witness:
  "returns paged one_row_store \<and> \<not> returns endless empty_store
   \<and> pc (run paged 2 (start one_row_store)) = AtScan"
proof -
  note inst = scan_loop_returns_iff[where m = "start one_row_store" and k = "(''c0'', ''t0'')"
      and resp = "\<lparr>Items = Some [], LastEvaluatedKey = Some (''c0'', ''t0'')\<rparr>"]
  have "tokenless_reply paged (run paged 2 (start one_row_store))"
    by (simp add: tokenless_reply_def numeral_2_eq_2 mutator_eval paged_def)
  then have "sees_last_page paged one_row_store" unfolding sees_last_page_def by blast
  with inst[of paged one_row_store] have "returns paged one_row_store" by blast
  moreover have "\<not> sees_last_page endless empty_store \<and> \<not> sees_scan_error endless empty_store"
    by (simp add: sees_last_page_def sees_scan_error_def tokenless_reply_def failed_reply_def
        endless_def)
  with inst[of endless empty_store] have "\<not> returns endless empty_store" by blast
  moreover have "pc (run paged 2 (start one_row_store)) = AtScan"
    using inst[of paged one_row_store] by (simp add: start_def paged_def)
  ultimately show ?thesis by simp
qed




section \<open>What an update changes\<close>

lemma update_item_keeps:
  assumes "table st k = Some r"
  shows "\<exists>r'. table (snd (update_item svc Key (SET ''senderId'' p) vals st)) k = Some r'
           \<and> (\<forall>a. a \<noteq> ''senderId'' \<longrightarrow> r' a = r a)"
  using assms by (auto simp add: update_item_def split: option.splits)

lemma update_item_elsewhere:
  "key_of Key \<noteq> Some k \<Longrightarrow> table (snd (update_item svc Key expr vals st)) k = table st k"
  by (auto simp add: update_item_def split: option.splits update_expr.splits)

lemma try_update_remote:
  "remote (snd (try_update svc item m)) = remote m
   \<or> (\<exists>c t. getS item ''conversationId'' = Inr c \<and> getS item ''timestamp'' = Inr t
        \<and> remote (snd (try_update svc item m))
            = snd (update_item svc [''conversationId'' \<mapsto> S c, ''timestamp'' \<mapsto> S t]
                (SET ''senderId'' '':new_sender'') ['':new_sender'' \<mapsto> S (PyStr NEW_SENDER_ID)]
                (remote m)))"
  by (auto simp add: try_update_def split: sum.splits prod.splits)

lemma update_one_remote: "remote (update_one svc item m) = remote (snd (try_update svc item m))"
  by (simp add: update_one_def split: sum.splits prod.splits)

lemma key_of_request:
  assumes "getS item ''conversationId'' = Inr c" and "getS item ''timestamp'' = Inr t"
  shows "key_of [''conversationId'' \<mapsto> S c, ''timestamp'' \<mapsto> S t] = key_of item"
  using assms
  by (auto simp add: getS_def key_of_def split: option.splits attr.splits pyval.splits)

lemma update_one_keeps:
  assumes "table (remote m) k = Some r"
  shows "\<exists>r'. table (remote (update_one svc item m)) k = Some r'
           \<and> (\<forall>a. a \<noteq> ''senderId'' \<longrightarrow> r' a = r a)"
  using try_update_remote[of svc item m] update_item_keeps[OF assms] assms
  by (auto simp add: update_one_remote)

lemma update_one_elsewhere:
  assumes "key_of item \<noteq> Some k"
  shows "table (remote (update_one svc item m)) k = table (remote m) k"
  using try_update_remote[of svc item m] assms
  by (auto simp add: update_one_remote key_of_request update_item_elsewhere)

lemma step_keeps:
  assumes "table (remote m) k = Some r"
  shows "\<exists>r'. table (remote (step svc m)) k = Some r' \<and> (\<forall>a. a \<noteq> ''senderId'' \<longrightarrow> r' a = r a)"
proof (cases "pc m")
  case AtScan
  with assms show ?thesis
    by (auto simp add: step_def scan_def Let_def split: sum.splits)
next
  case (InPage items lek)
  show ?thesis
  proof (cases items)
    case Nil
    with InPage assms show ?thesis by (cases lek) (simp_all add: step_def)
  next
    case (Cons item rest)
    with InPage update_one_keeps[OF assms, of svc item] show ?thesis
      by (simp add: step_row)
  qed
next
  case Finished
  with assms show ?thesis by (simp add: step_def)
next
  case (Aborted e)
  with assms show ?thesis by (simp add: step_def)
qed

lemma run_keeps:
  assumes "table (remote m) k = Some r"
  shows "\<exists>r'. table (remote (run svc n m)) k = Some r' \<and> (\<forall>a. a \<noteq> ''senderId'' \<longrightarrow> r' a = r a)"
proof (induction n)
  case 0
  with assms show ?case by (simp add: run_0)
next
  case (Suc n)
  then obtain r' where r': "table (remote (run svc n m)) k = Some r'"
    and same: "\<forall>a. a \<noteq> ''senderId'' \<longrightarrow> r' a = r a" by blast
  from step_keeps[OF r', of svc] same show ?case
    by (auto simp add: run_Suc)
qed

text \<open>
  C9. Throughout a run of the mutator, a row of the table stays under its key and keeps
  every attribute other than \<^verbatim>\<open>senderId\<close>, in particular its \<^verbatim>\<open>conversationId\<close> and its
  \<^verbatim>\<open>timestamp\<close>; and the update made for a scanned item leaves every row other than the one
  the item's key addresses as it was.
\<close>

theorem update_changes_only_senderId:
  assumes "table (remote m) k = Some r"
  shows "(\<exists>r'. table (remote (run svc n m)) k = Some r'
            \<and> r' ''conversationId'' = r ''conversationId''
            \<and> r' ''timestamp'' = r ''timestamp''
            \<and> (\<forall>a. a \<noteq> ''senderId'' \<longrightarrow> r' a = r a))
       \<and> (key_of item \<noteq> Some k \<longrightarrow> table (remote (update_one svc item m)) k = Some r)"
proof -
  from run_keeps[OF assms, of svc n] obtain r' where
    "table (remote (run svc n m)) k = Some r'" and "\<forall>a. a \<noteq> ''senderId'' \<longrightarrow> r' a = r a"
    by blast
  moreover from this(2) have "r' ''conversationId'' = r ''conversationId''"
    and "r' ''timestamp'' = r ''timestamp''" by simp_all
  moreover have "key_of item \<noteq> Some k \<longrightarrow> table (remote (update_one svc item m)) k = Some r"
    using update_one_elsewhere[of item k svc m] assms by simp
  ultimately show ?thesis by blast
qed

theorem update_changes_only_senderId_witness:
  "\<exists>r'. table (remote (run paged 5 (start one_row_store))) (''c1'', ''t1'') = Some r'
     \<and> r' ''senderId'' = Some (S (PyStr NEW_SENDER_ID))
     \<and> r' ''conversationId'' = Some (S (PyStr ''c1''))
     \<and> r' ''timestamp'' = Some (S (PyStr ''t1''))
     \<and> r' ''content'' = Some (S (PyStr ''hi''))"
proof -
  have "table (remote (start one_row_store)) (''c1'', ''t1'') = Some stored_item"
    by (simp add: start_def one_row_store_def)
  from update_changes_only_senderId[OF this, of paged 5 stored_item]
  obtain r' where r': "table (remote (run paged 5 (start one_row_store))) (''c1'', ''t1'') = Some r'"
    and "r' ''conversationId'' = stored_item ''conversationId''"
    and "r' ''timestamp'' = stored_item ''timestamp''"
    and "\<forall>a. a \<noteq> ''senderId'' \<longrightarrow> r' a = stored_item a"
    by blast
  then have "r' ''conversationId'' = Some (S (PyStr ''c1''))"
    and "r' ''timestamp'' = Some (S (PyStr ''t1''))"
    and "r' ''content'' = Some (S (PyStr ''hi''))"
    by (simp_all add: stored_item_def)
  moreover have "map_option (\<lambda>r. r ''senderId'')
      (table (remote (run paged 5 (start one_row_store))) (''c1'', ''t1''))
      = Some (Some (S (PyStr NEW_SENDER_ID)))"
    by (simp add: eval_nat_numeral mutator_eval paged_def)
  with r' have "r' ''senderId'' = Some (S (PyStr NEW_SENDER_ID))" by simp
  ultimately show ?thesis using r' by blast
qed


section \<open>The confirmation gate\<close>

lemma update_item_calls: "calls st \<le> calls (snd (update_item svc Key expr vals st))"
  by (simp add: update_item_def split: option.splits update_expr.splits)

lemma update_one_calls: "calls (remote m) \<le> calls (remote (update_one svc item m))"
proof -
  from try_update_remote[of svc item m]
  consider "remote (snd (try_update svc item m)) = remote m"
    | Key where "remote (snd (try_update svc item m))
        = snd (update_item svc Key (SET ''senderId'' '':new_sender'')
            ['':new_sender'' \<mapsto> S (PyStr NEW_SENDER_ID)] (remote m))"
    by blast
  then show ?thesis
  proof cases
    case 1
    then show ?thesis by (simp add: update_one_remote)
  next
    case 2
    then show ?thesis by (simp add: update_one_remote update_item_calls)
  qed
qed

lemma calls_step: "calls (remote m) \<le> calls (remote (step svc m))"
proof (cases "pc m")
  case AtScan
  then show ?thesis by (auto simp add: step_def scan_def Let_def split: sum.splits)
next
  case (InPage items lek)
  with update_one_calls[of m svc] show ?thesis
    by (cases items; cases lek) (simp_all add: step_def)
next
  case Finished
  then show ?thesis by (simp add: step_def)
next
  case (Aborted e)
  then show ?thesis by (simp add: step_def)
qed

lemma calls_run: "calls (remote m) \<le> calls (remote (run svc n m))"
proof (induction n)
  case 0
  show ?case by (simp add: run_0)
next
  case (Suc n)
  with calls_step[of "run svc n m" svc] show ?case by (simp add: run_Suc)
qed

lemma confirmed_run_scans:
  assumes "confirmed text" and "mutator_main svc (Some text) n st = Some (e, p)"
  shows "calls st < calls (remote p)"
proof -
  from assms have h: "halted (run svc n (start st))" and p: "remote p = remote (run svc n (start st))"
    by (auto simp add: mutator_main_def update_sender_ids_def Let_def split: if_splits)
  from h obtain j where n: "n = Suc j"
    by (cases n) (simp_all add: run_0 halted_def start_def)
  have "calls (remote (step svc (start st))) = Suc (calls st)"
    by (simp add: step_def scan_def start_def Let_def split: sum.splits)
  with calls_run[of "step svc (start st)" svc j] n p show ?thesis
    by (simp add: run_first)
qed

lemma confirmed_YES: "confirmed '' YES ''"
  unfolding confirmed_def by code_simp

text \<open>
  C2, as stated: no store call unless the line read is exactly \<^verbatim>\<open>yes\<close>. It
  fails on the line \<^verbatim>\<open>" YES "\<close>, which is not the token \<^verbatim>\<open>yes\<close>: the script trims and
  lowercases the line before the test, calls \<^verbatim>\<open>update_sender_ids\<close>, and the store
  receives a scan.
\<close>

theorem padded_uppercase_yes_proceeds:
  "'' YES '' \<noteq> ''yes''
   \<and> mutator_main steady (Some '' YES '') 2 empty_store =
       Some (None, \<lparr>remote = \<lparr>table = Map.empty, calls = 1\<rparr>,
                    out = [Banner, Banner, UpdateSummary 0 0 0, NoneFound]\<rparr>)"
  by (simp add: mutator_main_def confirmed_YES eval_nat_numeral mutator_eval steady_def)

text \<open>
  C2, amended. Unless the line read, trimmed and lowercased, is \<^verbatim>\<open>yes\<close>, the script prints
  that the operation is cancelled and ends with the store exactly as it was: no scan and
  no update is made.
\<close>

theorem declined_leaves_store_untouched:
  assumes "lower (strip text) \<noteq> ''yes''"
  shows "mutator_main svc (Some text) n st = Some (None, \<lparr>remote = st, out = [Banner, Cancelled]\<rparr>)"
  using assms by (simp add: mutator_main_def confirmed_def)

theorem declined_leaves_store_untouched_witness:
  "mutator_main paged (Some ''no'') 9 one_row_store
     = Some (None, \<lparr>remote = one_row_store, out = [Banner, Cancelled]\<rparr>)"
proof -
  have "lower (strip ''no'') \<noteq> ''yes''"
    by (simp add: lower_def strip_def isspace_def)
  then show ?thesis by (rule declined_leaves_store_untouched)
qed

end
